theory Spec2Isabelle
  imports Main "HOL-Library.Sublist"
begin

section \<open>Connector lifecycle supervisor (zato.server.connection.connector)\<close>

text \<open>
  A shallow embedding of \<^verbatim>\<open>Connector\<close> and \<^verbatim>\<open>ConnectorStore\<close>.

  Naming: a leading underscore of the source is written \<open>u_\<close>, so the method \<^verbatim>\<open>_start\<close> is
  \<open>u_start\<close> and \<^verbatim>\<open>_start_loop\<close> is \<open>u_start_loop\<close>. The attributes \<^verbatim>\<open>type\<close> and \<^verbatim>\<open>id\<close>
  are the fields \<open>ctype\<close> and \<open>cid\<close>; the attributes of a config carry the prefix \<open>cfg_\<close>.

  The methods that subclasses supply (\<^verbatim>\<open>_start\<close>, \<^verbatim>\<open>_send\<close>, \<^verbatim>\<open>_stop\<close>, \<^verbatim>\<open>invoke\<close>, the log
  details) are parameters of the model, collected in a class record; they act on the connector
  they are called on and on nothing else. Where a property of the supervisor depends on what such
  a method does, the property states it as a condition on the method.

  The model is sequential: one caller at a time. The module's logger, \<^verbatim>\<open>gevent.sleep\<close>, the two
  reentrant locks and the calls of the overridable methods are recorded, in program order, in a
  list of events that is threaded through every operation.
\<close>

subsection \<open>Exceptions\<close>

text \<open>
  The exceptions that the code raises or tells apart. \<^verbatim>\<open>except Exception\<close> catches every class
  below except the last three, which derive from \<^verbatim>\<open>BaseException\<close> only.
\<close>

datatype exc =
    Inactive
  | KeyError
  | AttributeError
  | TypeError
  | NotImplementedError
  | OtherException string
  | KeyboardInterrupt
  | SystemExit
  | GreenletExit

fun is_Exception :: "exc \<Rightarrow> bool" where
  "is_Exception KeyboardInterrupt = False"
| "is_Exception SystemExit = False"
| "is_Exception GreenletExit = False"
| "is_Exception _ = True"

subsection \<open>Events: log records, pauses, locks, calls of overridable methods\<close>

type_synonym msg = string

datatype level = Debug | Info | Warn

datatype message =
    Start_stop string string string string
  | Traceback exc
  | Could_not_connect string string nat

datatype lock_id = Connector_lock | Store_lock

datatype callee = M_start | M_stop | M_send msg | M_invoke | M_spawn_greenlet

datatype event =
    Log level message
  | Sleep nat
  | Acquire lock_id
  | Release lock_id
  | Call callee

subsection \<open>Data model\<close>

text \<open>
  The config object: the attributes the core reads or writes. \<^verbatim>\<open>config.get('service_name')\<close>
  and \<^verbatim>\<open>prev_address\<close> may be absent, hence options.
\<close>

record config =
  cfg_id :: int
  cfg_name :: string
  cfg_is_active :: bool
  cfg_address :: string
  cfg_prev_address :: "string option"
  cfg_service_name :: "string option"

text \<open>
  The attributes set by \<^verbatim>\<open>Connector.__init__\<close>. The record is extensible: the extension part
  holds the attributes a subclass adds. Callbacks and the transport handle are opaque.
\<close>

record connector =
  name :: string
  ctype :: string
  config :: config
  on_message_callback :: "nat option"
  auth_func :: "nat option"
  service :: "string option"
  cid :: int
  is_active :: bool
  is_inactive :: bool
  is_connected :: bool
  keep_connecting :: bool
  keep_running :: bool
  conn :: "nat option"

text \<open>
  An overridable method receives \<^verbatim>\<open>self\<close> and either returns or raises; in both cases the
  mutations it made to \<^verbatim>\<open>self\<close> persist.
\<close>

type_synonym 'a meth = "'a connector_scheme \<Rightarrow> exc option \<times> 'a connector_scheme"

text \<open>
  A connector class: the methods and class attributes that subclasses supply or override.
  \<open>more_init\<close> is the initial value of the attributes the subclass adds.
  \<open>spawn_greenlet\<close> stands for what the caller of
  \<^verbatim>\<open>spawn_greenlet(self._spawn_start)\<close> observes; \<^verbatim>\<open>zato.common.util.spawn_greenlet\<close> is not
  part of these sources and the dispatched task runs concurrently, so it is a parameter.
\<close>

record 'a class_def =
  start_in_greenlet :: bool
  u_start :: "'a meth"
  u_send :: "msg \<Rightarrow> 'a meth"
  u_stop :: "'a meth"
  invoke :: "'a meth"
  get_log_details :: "'a connector_scheme \<Rightarrow> string"
  get_prev_log_details :: "'a connector_scheme \<Rightarrow> string"
  spawn_greenlet :: "'a meth"
  more_init :: 'a

text \<open>The methods as \<^verbatim>\<open>Connector\<close> itself defines them.\<close>

definition Connector_u_start :: "'a meth" where
  "Connector_u_start c = (Some NotImplementedError, c)"

text \<open>\<^verbatim>\<open>_send(self)\<close> takes no message, so the call \<^verbatim>\<open>self._send(msg, ...)\<close> is a \<^verbatim>\<open>TypeError\<close>.\<close>

definition Connector_u_send :: "msg \<Rightarrow> 'a meth" where
  "Connector_u_send m c = (Some TypeError, c)"

definition Connector_u_stop :: "'a meth" where
  "Connector_u_stop c = (None, c)"

text \<open>\<^verbatim>\<open>Connector\<close> has no method \<^verbatim>\<open>invoke\<close>.\<close>

definition Connector_invoke :: "'a meth" where
  "Connector_invoke c = (Some AttributeError, c)"

definition Connector_get_log_details :: "'a connector_scheme \<Rightarrow> string" where
  "Connector_get_log_details c = []"

definition Connector :: "'a meth \<Rightarrow> 'a \<Rightarrow> 'a class_def" where
  "Connector sg m =
    \<lparr> start_in_greenlet = False,
      u_start = Connector_u_start,
      u_send = Connector_u_send,
      u_stop = Connector_u_stop,
      invoke = Connector_invoke,
      get_log_details = Connector_get_log_details,
      get_prev_log_details = Connector_get_log_details,
      spawn_greenlet = sg,
      more_init = m \<rparr>"

subsection \<open>Connector\<close>

definition Connector_init ::
  "'a class_def \<Rightarrow> string \<Rightarrow> string \<Rightarrow> config \<Rightarrow> nat option \<Rightarrow> nat option
    \<Rightarrow> 'a connector_scheme" where
  "Connector_init K nm ty cfg cb af =
    \<lparr> name = nm,
      ctype = ty,
      config = cfg,
      on_message_callback = cb,
      auth_func = af,
      service = cfg_service_name cfg,
      cid = cfg_id cfg,
      is_active = cfg_is_active cfg,
      is_inactive = (\<not> cfg_is_active cfg),
      is_connected = False,
      keep_connecting = True,
      keep_running = False,
      conn = None,
      \<dots> = more_init K \<rparr>"

type_synonym 'a outcome = "exc option \<times> 'a connector_scheme \<times> event list"

text \<open>
  The inner loop of \<^verbatim>\<open>_start_loop\<close>: \<^verbatim>\<open>while not self.is_connected\<close>. It has no bound, so it
  is a partial function: \<open>None\<close> means that the loop never ends. An exception that
  \<^verbatim>\<open>except Exception\<close> does not catch leaves the loop. The result carries the counter
  \<^verbatim>\<open>attempts\<close>. The elapsed time of the log record is not modelled.
\<close>

partial_function (option) connect_while ::
  "'a class_def \<Rightarrow> nat \<Rightarrow> 'a connector_scheme \<Rightarrow> event list
    \<Rightarrow> (exc option \<times> nat \<times> 'a connector_scheme \<times> event list) option" where
  "connect_while K attempts c tr =
    (if is_connected c then Some (None, attempts, c, tr)
     else
       (case u_start K c of
          (Some e, c1) \<Rightarrow>
            if is_Exception e then
              (let tr1 = tr @ [Call M_start, Log Warn (Traceback e), Sleep 2];
                   attempts1 = attempts + 1;
                   tr2 = (if attempts1 mod 10 = 0
                          then tr1 @ [Log Warn (Could_not_connect (get_log_details K c1) (name c1) attempts1)]
                          else tr1)
               in connect_while K attempts1 c1 tr2)
            else Some (Some e, attempts, c1, tr @ [Call M_start])
        | (None, c1) \<Rightarrow>
            (let tr1 = tr @ [Call M_start];
                 attempts1 = attempts + 1;
                 tr2 = (if attempts1 mod 10 = 0
                        then tr1 @ [Log Warn (Could_not_connect (get_log_details K c1) (name c1) attempts1)]
                        else tr1)
             in connect_while K attempts1 c1 tr2)))"

declare connect_while.simps [code]

text \<open>The outer loop of \<^verbatim>\<open>_start_loop\<close>: \<^verbatim>\<open>while self.keep_connecting\<close>.\<close>

partial_function (option) keep_connecting_while ::
  "'a class_def \<Rightarrow> nat \<Rightarrow> 'a connector_scheme \<Rightarrow> event list \<Rightarrow> 'a outcome option" where
  "keep_connecting_while K attempts c tr =
    (if keep_connecting c then
       (case connect_while K attempts c tr of
          None \<Rightarrow> None
        | Some (Some e, attempts1, c1, tr1) \<Rightarrow> Some (Some e, c1, tr1)
        | Some (None, attempts1, c1, tr1) \<Rightarrow>
            keep_connecting_while K attempts1 (c1\<lparr>keep_connecting := False\<rparr>) tr1)
     else Some (None, c, tr))"

declare keep_connecting_while.simps [code]

text \<open>\<^verbatim>\<open>_start_loop\<close>: the loops inside \<^verbatim>\<open>try ... except KeyboardInterrupt\<close>.\<close>

definition u_start_loop ::
  "'a class_def \<Rightarrow> 'a connector_scheme \<Rightarrow> event list \<Rightarrow> 'a outcome option" where
  "u_start_loop K c tr =
    (case keep_connecting_while K 0 c tr of
       None \<Rightarrow> None
     | Some (Some e, c1, tr1) \<Rightarrow>
         if e = KeyboardInterrupt then Some (None, c1\<lparr>keep_connecting := False\<rparr>, tr1)
         else Some (Some e, c1, tr1)
     | Some (None, c1, tr1) \<Rightarrow> Some (None, c1, tr1))"

text \<open>\<^verbatim>\<open>'Stop' in verb\<close>: substring test.\<close>

fun is_in :: "string \<Rightarrow> string \<Rightarrow> bool" where
  "is_in p [] = (p = [])"
| "is_in p (x # xs) = (prefix p (x # xs) \<or> is_in p xs)"

definition u_debug_start_stop :: "string \<Rightarrow> 'a connector_scheme \<Rightarrow> event list \<Rightarrow> event list" where
  "u_debug_start_stop verb c tr = tr @ [Log Debug (Start_stop verb (ctype c) (name c) [])]"

definition u_info_start_stop ::
  "'a class_def \<Rightarrow> string \<Rightarrow> 'a connector_scheme \<Rightarrow> event list \<Rightarrow> event list" where
  "u_info_start_stop K verb c tr =
    (let log_details = (if is_in ''Stop'' verb then get_prev_log_details K c else get_log_details K c)
     in tr @ [Log Info (Start_stop verb (ctype c) (name c) log_details)])"

text \<open>
  \<^verbatim>\<open>start\<close>. The \<^verbatim>\<open>with\<close> block logs on entry and on exit, also when an exception passes
  through it (\<^verbatim>\<open>__exit__\<close> returns nothing, so the exception goes on to the caller).
\<close>

definition start :: "'a class_def \<Rightarrow> 'a connector_scheme \<Rightarrow> event list \<Rightarrow> 'a outcome option" where
  "start K c tr =
    (let tr1 = u_debug_start_stop ''Starting'' c tr;
         c1 = c\<lparr>keep_running := True\<rparr>
     in
       (case (if start_in_greenlet K
              then (case spawn_greenlet K c1 of (r, c2) \<Rightarrow> Some (r, c2, tr1 @ [Call M_spawn_greenlet]))
              else u_start_loop K c1 tr1) of
          None \<Rightarrow> None
        | Some (Some e, c2, tr2) \<Rightarrow>
            if is_Exception e
            then Some (None, c2, u_info_start_stop K '' Started'' c2 (tr2 @ [Log Warn (Traceback e)]))
            else Some (Some e, c2, u_info_start_stop K '' Started'' c2 tr2)
        | Some (None, c2, tr2) \<Rightarrow> Some (None, c2, u_info_start_stop K '' Started'' c2 tr2)))"

text \<open>\<^verbatim>\<open>stop\<close>: no handler around \<^verbatim>\<open>self._stop()\<close>.\<close>

definition stop :: "'a class_def \<Rightarrow> 'a connector_scheme \<Rightarrow> event list \<Rightarrow> 'a outcome" where
  "stop K c tr =
    (let tr1 = u_debug_start_stop ''Stopping'' c tr;
         c1 = c\<lparr>keep_connecting := False\<rparr>;
         c2 = c1\<lparr>keep_running := False\<rparr>
     in (case u_stop K c2 of
           (r, c3) \<Rightarrow> (r, c3, u_info_start_stop K '' Stopped'' c3 (tr1 @ [Call M_stop]))))"

definition restart :: "'a class_def \<Rightarrow> 'a connector_scheme \<Rightarrow> event list \<Rightarrow> 'a outcome option" where
  "restart K c tr =
    (case stop K c tr of
       (Some e, c1, tr1) \<Rightarrow> Some (Some e, c1, tr1)
     | (None, c1, tr1) \<Rightarrow> start K c1 tr1)"

definition u_edit :: "string \<Rightarrow> config \<Rightarrow> 'a connector_scheme \<Rightarrow> 'a connector_scheme" where
  "u_edit old_name cfg c = (c\<lparr>name := cfg_name cfg\<rparr>)\<lparr>config := cfg\<rparr>"

text \<open>
  \<^verbatim>\<open>edit\<close>. The config object is mutated in place (\<^verbatim>\<open>prev_address\<close>) before it is installed;
  the lock is released when the block is left, also by an exception.
\<close>

definition edit ::
  "'a class_def \<Rightarrow> string \<Rightarrow> config \<Rightarrow> 'a connector_scheme \<Rightarrow> event list \<Rightarrow> 'a outcome option" where
  "edit K old_name cfg c tr =
    (let cfg1 = cfg\<lparr>cfg_prev_address := Some (cfg_address (config c))\<rparr>;
         c1 = u_edit old_name cfg1 c
     in (case restart K c1 (tr @ [Acquire Connector_lock]) of
           None \<Rightarrow> None
         | Some (r, c2, tr2) \<Rightarrow> Some (r, c2, tr2 @ [Release Connector_lock])))"

definition send :: "'a class_def \<Rightarrow> msg \<Rightarrow> 'a connector_scheme \<Rightarrow> event list \<Rightarrow> 'a outcome" where
  "send K m c tr =
    (let tr1 = tr @ [Acquire Connector_lock]
     in if is_inactive c then (Some Inactive, c, tr1 @ [Release Connector_lock])
        else (case u_send K m c of
                (r, c1) \<Rightarrow> (r, c1, tr1 @ [Call (M_send m), Release Connector_lock])))"

subsection \<open>ConnectorStore\<close>

text \<open>
  Connectors are objects: the registry maps a name to a reference, and \<open>objs\<close> is the heap of
  connector objects, a reference being an index into it. A new object gets the next index, so
  two references are equal exactly when they denote the same instance.
\<close>

record 'a connector_store =
  stype :: string
  connector_class :: "'a class_def"
  connectors :: "string \<rightharpoonup> nat"

record 'a world =
  objs :: "'a connector_scheme list"
  events :: "event list"

type_synonym 'a store_outcome = "exc option \<times> 'a connector_store \<times> 'a world"

definition ConnectorStore_init :: "string \<Rightarrow> 'a class_def \<Rightarrow> 'a connector_store" where
  "ConnectorStore_init ty K = \<lparr> stype = ty, connector_class = K, connectors = Map.empty \<rparr>"

text \<open>The expression \<^verbatim>\<open>self.connectors[name]\<close>: an absent key is a \<^verbatim>\<open>KeyError\<close>.\<close>

definition getitem :: "'a connector_store \<Rightarrow> string \<Rightarrow> exc + nat" where
  "getitem S nm = (case connectors S nm of None \<Rightarrow> Inl KeyError | Some r \<Rightarrow> Inr r)"

definition store_create ::
  "'a connector_store \<Rightarrow> string \<Rightarrow> config \<Rightarrow> nat option \<Rightarrow> nat option \<Rightarrow> 'a world
    \<Rightarrow> 'a store_outcome" where
  "store_create S nm cfg cb af W =
    (let c = Connector_init (connector_class S) nm (stype S) cfg cb af;
         r = length (objs W)
     in (None,
         S\<lparr>connectors := (connectors S)(nm \<mapsto> r)\<rparr>,
         \<lparr> objs = objs W @ [c], events = events W @ [Acquire Store_lock, Release Store_lock] \<rparr>))"

text \<open>
  \<^verbatim>\<open>ConnectorStore.edit\<close>: \<^verbatim>\<open>self.connectors[old_name]\<close> raises \<^verbatim>\<open>KeyError\<close> for an absent
  name; the entry is moved only when the connector's \<^verbatim>\<open>edit\<close> has returned.
\<close>

definition store_edit ::
  "'a connector_store \<Rightarrow> string \<Rightarrow> config \<Rightarrow> 'a world \<Rightarrow> 'a store_outcome option" where
  "store_edit S old_name cfg W =
    (let tr = events W @ [Acquire Store_lock]
     in (case getitem S old_name of
           Inl e \<Rightarrow> Some (Some e, S, \<lparr> objs = objs W, events = tr @ [Release Store_lock] \<rparr>)
         | Inr r \<Rightarrow>
             (case edit (connector_class S) old_name cfg (objs W ! r) tr of
                None \<Rightarrow> None
              | Some (Some e, c1, tr1) \<Rightarrow>
                  Some (Some e, S, \<lparr> objs = (objs W)[r := c1], events = tr1 @ [Release Store_lock] \<rparr>)
              | Some (None, c1, tr1) \<Rightarrow>
                  Some (None,
                        S\<lparr>connectors := ((connectors S)(old_name := None))(cfg_name cfg \<mapsto> r)\<rparr>,
                        \<lparr> objs = (objs W)[r := c1], events = tr1 @ [Release Store_lock] \<rparr>))))"

definition store_delete :: "'a connector_store \<Rightarrow> string \<Rightarrow> 'a world \<Rightarrow> 'a store_outcome" where
  "store_delete S nm W =
    (let tr = events W @ [Acquire Store_lock]
     in (case getitem S nm of
           Inl e \<Rightarrow> (Some e, S, \<lparr> objs = objs W, events = tr @ [Release Store_lock] \<rparr>)
         | Inr r \<Rightarrow>
             (case stop (connector_class S) (objs W ! r) tr of
                (Some e, c1, tr1) \<Rightarrow>
                  (Some e, S, \<lparr> objs = (objs W)[r := c1], events = tr1 @ [Release Store_lock] \<rparr>)
              | (None, c1, tr1) \<Rightarrow>
                  (None,
                   S\<lparr>connectors := (connectors S)(nm := None)\<rparr>,
                   \<lparr> objs = (objs W)[r := c1], events = tr1 @ [Release Store_lock] \<rparr>))))"

text \<open>\<^verbatim>\<open>ConnectorStore.invoke\<close> takes no lock; the value that \<^verbatim>\<open>invoke\<close> returns is not modelled.\<close>

definition store_invoke :: "'a connector_store \<Rightarrow> string \<Rightarrow> 'a world \<Rightarrow> 'a store_outcome" where
  "store_invoke S nm W =
    (case getitem S nm of
       Inl e \<Rightarrow> (Some e, S, W)
     | Inr r \<Rightarrow>
         (case invoke (connector_class S) (objs W ! r) of
            (e, c1) \<Rightarrow> (e, S, \<lparr> objs = (objs W)[r := c1], events = events W @ [Call M_invoke] \<rparr>)))"

subsection \<open>A connect stub for the retry properties\<close>

text \<open>
  The test double of the spec's retry property: a subclass whose \<^verbatim>\<open>_start\<close> works through a
  plan of failures, one per call, and connects once the plan is used up. A failed attempt either
  raises or returns without setting \<^verbatim>\<open>is_connected\<close>.
\<close>

datatype attempt = Raises exc | Returns_unconnected

definition stub_u_start :: "attempt list meth" where
  "stub_u_start c =
    (case connector.more c of
       [] \<Rightarrow> (None, c\<lparr>is_connected := True\<rparr>)
     | Raises e # rest \<Rightarrow> (Some e, connector.more_update (\<lambda>_. rest) c)
     | Returns_unconnected # rest \<Rightarrow> (None, connector.more_update (\<lambda>_. rest) c))"

text \<open>
  The stub's \<^verbatim>\<open>_send\<close> accepts every message, and \<^verbatim>\<open>_stop\<close> is inherited. The stub is started
  synchronously, so its dispatch is never called.
\<close>

definition stub_u_send :: "msg \<Rightarrow> attempt list meth" where
  "stub_u_send m c = (None, c)"

definition no_dispatch :: "'a meth" where
  "no_dispatch c = (None, c)"

definition Stub :: "attempt list \<Rightarrow> attempt list class_def" where
  "Stub plan = (Connector no_dispatch plan)\<lparr>u_start := stub_u_start, u_send := stub_u_send\<rparr>"

text \<open>A variant of the stub whose \<^verbatim>\<open>_stop\<close> raises.\<close>

definition failing_u_stop :: "attempt list meth" where
  "failing_u_stop c = (Some (OtherException ''cannot close''), c)"

definition Stub_failing_stop :: "attempt list \<Rightarrow> attempt list class_def" where
  "Stub_failing_stop plan = (Stub plan)\<lparr>u_stop := failing_u_stop\<rparr>"

text \<open>A variant that is started in a greenlet of its own, and whose dispatch raises.\<close>

definition refusing_dispatch :: "attempt list meth" where
  "refusing_dispatch c = (Some (OtherException ''connection refused''), c)"

definition Stub_in_greenlet :: "attempt list class_def" where
  "Stub_in_greenlet = (Stub [])\<lparr>start_in_greenlet := True, spawn_greenlet := refusing_dispatch\<rparr>"

subsection \<open>Observations on event lists, frame conditions, example data\<close>

fun warning :: "event \<Rightarrow> bool" where
  "warning (Log Warn m) = True"
| "warning _ = False"

fun could_not_connect :: "event \<Rightarrow> bool" where
  "could_not_connect (Log Warn (Could_not_connect d n a)) = True"
| "could_not_connect _ = False"

fun traceback :: "event \<Rightarrow> bool" where
  "traceback (Log Warn (Traceback e)) = True"
| "traceback _ = False"

fun raises :: "attempt \<Rightarrow> bool" where
  "raises (Raises e) = True"
| "raises Returns_unconnected = False"

text \<open>A failed attempt that the loop retries: it returns, or raises what \<^verbatim>\<open>except Exception\<close> catches.\<close>

fun retriable :: "attempt \<Rightarrow> bool" where
  "retriable (Raises e) = is_Exception e"
| "retriable Returns_unconnected = True"

text \<open>The events of the loop for a plan of failures, from the attempt counter \<open>n\<close> on.\<close>

definition every_10th :: "string \<Rightarrow> nat \<Rightarrow> event list" where
  "every_10th nm m = (if m mod 10 = 0 then [Log Warn (Could_not_connect [] nm m)] else [])"

fun retry_events :: "string \<Rightarrow> nat \<Rightarrow> attempt list \<Rightarrow> event list" where
  "retry_events nm n [] = Call M_start # every_10th nm (n + 1)"
| "retry_events nm n (Raises e # P) =
     [Call M_start, Log Warn (Traceback e), Sleep 2] @ every_10th nm (n + 1) @ retry_events nm (n + 1) P"
| "retry_events nm n (Returns_unconnected # P) =
     Call M_start # every_10th nm (n + 1) @ retry_events nm (n + 1) P"

text \<open>
  Frame condition on an overridden method: it leaves alone the attributes that the supervisor
  itself maintains. It may raise, and it may change \<^verbatim>\<open>is_connected\<close>, \<^verbatim>\<open>conn\<close> and whatever the
  subclass adds.
\<close>

definition keeps_supervisor_state :: "'a meth \<Rightarrow> bool" where
  "keeps_supervisor_state f =
    (\<forall>c. name (snd (f c)) = name c \<and> config (snd (f c)) = config c
       \<and> is_inactive (snd (f c)) = is_inactive c
       \<and> keep_connecting (snd (f c)) = keep_connecting c
       \<and> keep_running (snd (f c)) = keep_running c)"

definition example_config :: "bool \<Rightarrow> config" where
  "example_config active =
    \<lparr> cfg_id = 1, cfg_name = ''orders'', cfg_is_active = active, cfg_address = ''tcp://10.0.0.1:5555'',
      cfg_prev_address = None, cfg_service_name = None \<rparr>"

definition new_stub :: "attempt list \<Rightarrow> bool \<Rightarrow> attempt list connector_scheme" where
  "new_stub P active = Connector_init (Stub P) ''orders'' ''ZeroMQ outgoing'' (example_config active) None None"

definition example_store :: "attempt list connector_store" where
  "example_store = (ConnectorStore_init ''ZeroMQ outgoing'' (Stub []))\<lparr>connectors := [''orders'' \<mapsto> 0]\<rparr>"

definition example_world :: "attempt list world" where
  "example_world = \<lparr> objs = [new_stub [] True], events = [] \<rparr>"

text \<open>The same registry and a new connector, for the class whose \<^verbatim>\<open>_stop\<close> raises.\<close>

definition failing_store :: "attempt list connector_store" where
  "failing_store =
    (ConnectorStore_init ''ZeroMQ outgoing'' (Stub_failing_stop []))\<lparr>connectors := [''orders'' \<mapsto> 0]\<rparr>"

definition new_failing_stub :: "attempt list connector_scheme" where
  "new_failing_stub =
    Connector_init (Stub_failing_stop []) ''orders'' ''ZeroMQ outgoing'' (example_config True) None None"

text \<open>Sequences of calls on one connector, from an empty event list.\<close>

definition start_then_stop :: "'a class_def \<Rightarrow> 'a connector_scheme \<Rightarrow> 'a outcome option" where
  "start_then_stop K c =
    (case start K c [] of None \<Rightarrow> None | Some (r, c1, tr1) \<Rightarrow> Some (stop K c1 tr1))"

definition edit_then_send ::
  "'a class_def \<Rightarrow> config \<Rightarrow> msg \<Rightarrow> 'a connector_scheme \<Rightarrow> 'a outcome option" where
  "edit_then_send K cfg m c =
    (case edit K (name c) cfg c [] of None \<Rightarrow> None | Some (r, c1, tr1) \<Rightarrow> Some (send K m c1 tr1))"

section \<open>Properties\<close>

subsection \<open>The loops\<close>

lemma Stub_sel [simp]:
  "u_start (Stub P) = stub_u_start"
  "u_stop (Stub P) = Connector_u_stop"
  "u_send (Stub P) = stub_u_send"
  "start_in_greenlet (Stub P) = False"
  "get_log_details (Stub P) c = []"
  "get_prev_log_details (Stub P) c = []"
  "more_init (Stub P) = P"
  by (simp_all add: Stub_def Connector_def Connector_get_log_details_def)

lemma is_in_Stop [simp]: "\<not> is_in ''Stop'' '' Started''" "is_in ''Stop'' '' Stopped''"
  by simp_all

text \<open>The outer loop runs its body at most once: the body ends by clearing the flag it tests.\<close>

lemma keep_connecting_while_once:
  "keep_connecting_while K n c tr =
    (if keep_connecting c then
       (case connect_while K n c tr of
          None \<Rightarrow> None
        | Some (Some e, n1, c1, tr1) \<Rightarrow> Some (Some e, c1, tr1)
        | Some (None, n1, c1, tr1) \<Rightarrow> Some (None, c1\<lparr>keep_connecting := False\<rparr>, tr1))
     else Some (None, c, tr))"
  apply (subst keep_connecting_while.simps)
  apply (simp split: option.splits prod.splits)
  apply (subst keep_connecting_while.simps)
  apply simp
  done

lemma u_start_loop_idle: "\<not> keep_connecting c \<Longrightarrow> u_start_loop K c tr = Some (None, c, tr)"
  by (simp add: u_start_loop_def keep_connecting_while_once)

lemma start_idle:
  "\<lbrakk> \<not> keep_connecting c; \<not> start_in_greenlet K \<rbrakk> \<Longrightarrow>
   start K c tr =
     Some (None, c\<lparr>keep_running := True\<rparr>,
       tr @ [Log Debug (Start_stop ''Starting'' (ctype c) (name c) []),
             Log Info (Start_stop '' Started'' (ctype c) (name c)
                        (get_log_details K (c\<lparr>keep_running := True\<rparr>)))])"
  by (simp add: start_def u_start_loop_idle u_debug_start_stop_def u_info_start_stop_def Let_def)

text \<open>
  One failed attempt, for any class. A failure that raises an exception of class \<^verbatim>\<open>Exception\<close>
  is logged with its traceback and followed by the pause; one that returns is not. Both count as
  an attempt, and the loop goes on.
\<close>

lemma connect_while_raises:
  assumes "\<not> is_connected c" "u_start K c = (Some e, c1)" "is_Exception e"
  shows "connect_while K n c tr =
    connect_while K (Suc n) c1
      (tr @ [Call M_start, Log Warn (Traceback e), Sleep 2]
          @ (if Suc n mod 10 = 0
             then [Log Warn (Could_not_connect (get_log_details K c1) (name c1) (Suc n))] else []))"
  using assms by (subst connect_while.simps) (simp add: Let_def)

lemma connect_while_returns:
  assumes "\<not> is_connected c" "u_start K c = (None, c1)"
  shows "connect_while K n c tr =
    connect_while K (Suc n) c1
      (tr @ [Call M_start]
          @ (if Suc n mod 10 = 0
             then [Log Warn (Could_not_connect (get_log_details K c1) (name c1) (Suc n))] else []))"
  using assms by (subst connect_while.simps) (simp add: Let_def)

lemma connect_while_connected:
  "is_connected c \<Longrightarrow> connect_while K n c tr = Some (None, n, c, tr)"
  by (subst connect_while.simps) simp

text \<open>The inner loop is left by an exception only if \<^verbatim>\<open>except Exception\<close> does not catch it.\<close>

lemma connect_while_uncaught_aux:
  assumes "connect_while K n c tr = Some y"
  shows "\<forall>e. fst y = Some e \<longrightarrow> \<not> is_Exception e"
  by (rule connect_while.raw_induct [OF _ assms])
     (auto split: if_splits prod.splits option.splits simp: Let_def)

lemma connect_while_uncaught:
  "connect_while K n c tr = Some (Some e, n', c', tr') \<Longrightarrow> \<not> is_Exception e"
  using connect_while_uncaught_aux [of K n c tr "(Some e, n', c', tr')"] by simp

subsection \<open>The loop on the connect stub\<close>

lemma connect_while_stub:
  "\<lbrakk> \<not> is_connected c; connector.more c = P; list_all retriable P \<rbrakk> \<Longrightarrow>
   connect_while (Stub P0) n c tr =
     Some (None, n + length P + 1, c\<lparr>connector.more := [], is_connected := True\<rparr>,
           tr @ retry_events (name c) n P)"
proof (induction P arbitrary: n c tr)
  case Nil
  then show ?case
    apply (subst connect_while.simps)
    apply (simp add: stub_u_start_def Let_def every_10th_def)
    apply (subst connect_while.simps)
    apply simp
    apply (subst connect_while.simps)
    apply simp
    done
next
  case (Cons a P)
  let ?c1 = "c\<lparr>connector.more := P\<rparr>"
  have ih: "connect_while (Stub P0) (Suc n) ?c1 tr' =
      Some (None, Suc (Suc (n + length P)), c\<lparr>connector.more := [], is_connected := True\<rparr>,
           tr' @ retry_events (name c) (Suc n) P)" for tr'
    using Cons.prems Cons.IH [of ?c1 "Suc n" tr'] by simp
  show ?case
  proof (cases a)
    case (Raises e)
    with Cons.prems show ?thesis
      apply (subst connect_while.simps)
      apply (simp add: stub_u_start_def Let_def every_10th_def ih)
      done
  next
    case Returns_unconnected
    with Cons.prems show ?thesis
      apply (subst connect_while.simps)
      apply (simp add: stub_u_start_def Let_def every_10th_def ih)
      done
  qed
qed

lemma start_stub:
  assumes "keep_connecting c" "\<not> is_connected c" "connector.more c = P" "list_all retriable P"
  shows "start (Stub P0) c tr =
     Some (None,
       c\<lparr>is_connected := True, keep_connecting := False, keep_running := True, connector.more := []\<rparr>,
       tr @ Log Debug (Start_stop ''Starting'' (ctype c) (name c) []) # retry_events (name c) 0 P
          @ [Log Info (Start_stop '' Started'' (ctype c) (name c) [])])"
proof -
  let ?c1 = "c\<lparr>keep_running := True\<rparr>"
  have "connect_while (Stub P0) 0 ?c1 tr' =
     Some (None, 0 + length P + 1, ?c1\<lparr>connector.more := [], is_connected := True\<rparr>,
           tr' @ retry_events (name ?c1) 0 P)" for tr'
    using assms by (intro connect_while_stub) simp_all
  with assms show ?thesis
    by (simp add: start_def u_start_loop_def keep_connecting_while_once
        u_debug_start_stop_def u_info_start_stop_def Let_def)
qed

lemma every_10th_count:
  "length (filter could_not_connect (every_10th nm (Suc m))) + m div 10 = Suc m div 10"
  by (simp add: every_10th_def div_Suc)

lemma retry_events_could_not_connect:
  "length (filter could_not_connect (retry_events nm n P)) + n div 10 = (n + length P + 1) div 10"
proof (induction nm n P rule: retry_events.induct)
  case (1 nm n)
  then show ?case using every_10th_count [of nm n] by simp
next
  case (2 nm n e P)
  then show ?case using every_10th_count [of nm n] by simp
next
  case (3 nm n P)
  then show ?case using every_10th_count [of nm n] by simp
qed

lemma every_10th_no [simp]:
  "filter traceback (every_10th nm m) = []"
  "count_list (every_10th nm m) (Sleep k) = 0"
  "count_list (every_10th nm m) (Call f) = 0"
  by (simp_all add: every_10th_def)

lemma every_10th_warning [simp]:
  "filter warning (every_10th nm m) = every_10th nm m"
  "filter could_not_connect (every_10th nm m) = every_10th nm m"
  by (simp_all add: every_10th_def)

lemma retry_events_traceback:
  "length (filter traceback (retry_events nm n P)) = length (filter raises P)"
  by (induction nm n P rule: retry_events.induct) simp_all

lemma retry_events_sleep:
  "count_list (retry_events nm n P) (Sleep 2) = length (filter raises P)"
  by (induction nm n P rule: retry_events.induct) simp_all

lemma retry_events_calls:
  "count_list (retry_events nm n P) (Call M_start) = length P + 1"
  by (induction nm n P rule: retry_events.induct) simp_all

lemma retry_events_warning:
  "length (filter warning (retry_events nm n P)) =
     length (filter raises P) + length (filter could_not_connect (retry_events nm n P))"
  by (induction nm n P rule: retry_events.induct) simp_all

lemma floor_ceiling_tenths: "(k::nat) div 10 \<le> (k + 1) div 10 \<and> (k + 1) div 10 \<le> (k + 9) div 10"
  by (simp add: div_le_mono)

subsection \<open>Start, stop, restart, edit\<close>

lemma stop_eq:
  "stop K c tr =
    (fst (u_stop K (c\<lparr>keep_connecting := False, keep_running := False\<rparr>)),
     snd (u_stop K (c\<lparr>keep_connecting := False, keep_running := False\<rparr>)),
     tr @ [Log Debug (Start_stop ''Stopping'' (ctype c) (name c) []), Call M_stop,
           Log Info (Start_stop '' Stopped''
             (ctype (snd (u_stop K (c\<lparr>keep_connecting := False, keep_running := False\<rparr>))))
             (name (snd (u_stop K (c\<lparr>keep_connecting := False, keep_running := False\<rparr>))))
             (get_prev_log_details K (snd (u_stop K (c\<lparr>keep_connecting := False, keep_running := False\<rparr>)))))])"
  by (simp add: stop_def Let_def u_debug_start_stop_def u_info_start_stop_def split: prod.splits)

lemma stop_flags:
  assumes "keeps_supervisor_state (u_stop K)"
  shows "\<not> keep_connecting (fst (snd (stop K c tr)))" "\<not> keep_running (fst (snd (stop K c tr)))"
    "name (fst (snd (stop K c tr))) = name c" "config (fst (snd (stop K c tr))) = config c"
    "is_inactive (fst (snd (stop K c tr))) = is_inactive c"
  using assms by (simp_all add: stop_eq keeps_supervisor_state_def)

lemma stop_events:
  "\<exists>ev. snd (snd (stop K c tr)) = tr @ ev \<and> count_list ev (Call M_start) = 0"
  by (simp add: stop_eq)

lemma start_idle_events:
  assumes "\<not> keep_connecting c" "\<not> start_in_greenlet K"
  shows "\<exists>ev. start K c tr = Some (None, c\<lparr>keep_running := True\<rparr>, tr @ ev) \<and> count_list ev (Call M_start) = 0"
  using assms by (simp add: start_idle)

lemma restart_cases:
  assumes "keeps_supervisor_state (u_stop K)" "\<not> start_in_greenlet K"
  shows "\<exists>ev. count_list ev (Call M_start) = 0 \<and>
     restart K c tr =
       Some (fst (stop K c tr),
             (if fst (stop K c tr) = None then (fst (snd (stop K c tr)))\<lparr>keep_running := True\<rparr>
              else fst (snd (stop K c tr))),
             tr @ ev)"
proof -
  obtain r c1 tr1 where s: "stop K c tr = (r, c1, tr1)" by (cases "stop K c tr") auto
  obtain ev1 where ev1: "tr1 = tr @ ev1" "count_list ev1 (Call M_start) = 0"
    using stop_events [of K c tr] s by auto
  have idle: "\<not> keep_connecting c1" using stop_flags(1) [OF assms(1), of c tr] s by simp
  show ?thesis
  proof (cases r)
    case None
    obtain ev2 where "start K c1 tr1 = Some (None, c1\<lparr>keep_running := True\<rparr>, tr1 @ ev2)"
      "count_list ev2 (Call M_start) = 0"
      using start_idle_events [OF idle assms(2)] by blast
    with None s ev1 show ?thesis
      by (intro exI [of _ "ev1 @ ev2"]) (simp add: restart_def)
  next
    case (Some e)
    with s ev1 show ?thesis
      by (intro exI [of _ ev1]) (simp add: restart_def)
  qed
qed

lemma restart_frame:
  assumes "keeps_supervisor_state (u_stop K)" "\<not> start_in_greenlet K"
  shows "\<exists>r c' ev. restart K c tr = Some (r, c', tr @ ev) \<and> count_list ev (Call M_start) = 0
     \<and> \<not> keep_connecting c' \<and> name c' = name c \<and> config c' = config c \<and> is_inactive c' = is_inactive c
     \<and> r = fst (u_stop K (c\<lparr>keep_connecting := False, keep_running := False\<rparr>))"
proof -
  obtain ev where "count_list ev (Call M_start) = 0"
     "restart K c tr =
       Some (fst (stop K c tr),
             (if fst (stop K c tr) = None then (fst (snd (stop K c tr)))\<lparr>keep_running := True\<rparr>
              else fst (snd (stop K c tr))),
             tr @ ev)"
    using restart_cases [OF assms] by blast
  then show ?thesis
    using stop_flags [OF assms(1), of c tr] by (auto simp: stop_eq)
qed

lemma edit_frame:
  assumes "keeps_supervisor_state (u_stop K)" "\<not> start_in_greenlet K"
  shows "\<exists>r c' ev. edit K old cfg c tr = Some (r, c', tr @ ev) \<and> count_list ev (Call M_start) = 0
     \<and> \<not> keep_connecting c' \<and> name c' = cfg_name cfg
     \<and> config c' = cfg\<lparr>cfg_prev_address := Some (cfg_address (config c))\<rparr>
     \<and> is_inactive c' = is_inactive c
     \<and> r = fst (u_stop K ((u_edit old (cfg\<lparr>cfg_prev_address := Some (cfg_address (config c))\<rparr>) c)
              \<lparr>keep_connecting := False, keep_running := False\<rparr>))"
proof -
  let ?c1 = "u_edit old (cfg\<lparr>cfg_prev_address := Some (cfg_address (config c))\<rparr>) c"
  obtain r c' ev where "restart K ?c1 (tr @ [Acquire Connector_lock]) = Some (r, c', (tr @ [Acquire Connector_lock]) @ ev)"
     "count_list ev (Call M_start) = 0" "\<not> keep_connecting c'" "name c' = name ?c1" "config c' = config ?c1"
     "is_inactive c' = is_inactive ?c1"
     "r = fst (u_stop K (?c1\<lparr>keep_connecting := False, keep_running := False\<rparr>))"
    using restart_frame [OF assms, of ?c1 "tr @ [Acquire Connector_lock]"] by blast
  then show ?thesis
    by (intro exI [of _ r] exI [of _ c'] exI [of _ "Acquire Connector_lock # ev @ [Release Connector_lock]"])
       (simp add: edit_def Let_def u_edit_def)
qed

lemma u_start_loop_normal_exit:
  "u_start_loop K c tr = Some (None, c', tr') \<Longrightarrow> \<not> keep_connecting c'"
  by (auto simp: u_start_loop_def keep_connecting_while_once split: if_splits option.splits prod.splits)

lemma u_start_loop_uncaught:
  "u_start_loop K c tr = Some (Some e, c', tr') \<Longrightarrow> \<not> is_Exception e \<and> e \<noteq> KeyboardInterrupt"
  by (auto simp: u_start_loop_def keep_connecting_while_once dest: connect_while_uncaught
      split: if_splits option.splits prod.splits)

lemma start_uncaught:
  "start K c tr = Some (Some e, c', tr') \<Longrightarrow> \<not> is_Exception e"
  by (auto simp: start_def Let_def split: if_splits option.splits prod.splits)

lemma start_sync_normal_exit:
  "\<lbrakk> start K c tr = Some (None, c', tr'); \<not> start_in_greenlet K \<rbrakk> \<Longrightarrow> \<not> keep_connecting c'"
  by (auto simp: start_def Let_def split: if_splits option.splits prod.splits
      dest: u_start_loop_normal_exit u_start_loop_uncaught)

lemma start_sync_no_interrupt:
  "\<lbrakk> start K c tr = Some (Some e, c', tr'); \<not> start_in_greenlet K \<rbrakk> \<Longrightarrow> e \<noteq> KeyboardInterrupt"
  by (auto simp: start_def Let_def split: if_splits option.splits prod.splits
      dest: u_start_loop_uncaught)

lemma start_dispatch_caught:
  assumes "start_in_greenlet K" "spawn_greenlet K (c\<lparr>keep_running := True\<rparr>) = (Some e, c')" "is_Exception e"
  shows "start K c tr =
     Some (None, c',
       tr @ [Log Debug (Start_stop ''Starting'' (ctype c) (name c) []), Call M_spawn_greenlet,
             Log Warn (Traceback e),
             Log Info (Start_stop '' Started'' (ctype c') (name c') (get_log_details K c'))])"
  using assms by (simp add: start_def Let_def u_debug_start_stop_def u_info_start_stop_def)

lemma start_returns_iff:
  "(start K c tr = None) =
     (\<not> start_in_greenlet K \<and>
      u_start_loop K (c\<lparr>keep_running := True\<rparr>) (u_debug_start_stop ''Starting'' c tr) = None)"
  by (auto simp: start_def Let_def split: if_splits option.splits prod.splits)

lemma keeps_supervisor_state_default [simp]: "keeps_supervisor_state Connector_u_stop"
  by (simp add: keeps_supervisor_state_def Connector_u_stop_def)

lemma send_eq:
  "send K m c tr =
    (if is_inactive c then (Some Inactive, c, tr @ [Acquire Connector_lock, Release Connector_lock])
     else (fst (u_send K m c), snd (u_send K m c),
           tr @ [Acquire Connector_lock, Call (M_send m), Release Connector_lock]))"
  by (simp add: send_def Let_def split: prod.splits)

subsection \<open>The registry\<close>

lemma getitem_simps:
  "connectors S nm = None \<Longrightarrow> getitem S nm = Inl KeyError"
  "connectors S nm = Some r \<Longrightarrow> getitem S nm = Inr r"
  by (simp_all add: getitem_def)

lemma getitem_iff:
  "getitem S nm = Inl e \<longleftrightarrow> connectors S nm = None \<and> e = KeyError"
  "getitem S nm = Inr r \<longleftrightarrow> connectors S nm = Some r"
  by (auto simp: getitem_def split: option.splits)

lemma store_edit_absent:
  "connectors S old = None \<Longrightarrow>
   store_edit S old cfg W =
     Some (Some KeyError, S, \<lparr> objs = objs W, events = events W @ [Acquire Store_lock, Release Store_lock] \<rparr>)"
  by (simp add: store_edit_def getitem_simps Let_def)

lemma store_edit_returned:
  assumes "store_edit S old cfg W = Some (None, S', W')"
  shows "\<exists>r. getitem S old = Inr r \<and> connectors S' = ((connectors S)(old := None))(cfg_name cfg \<mapsto> r)"
  using assms
  by (auto simp: store_edit_def Let_def getitem_iff split: sum.splits option.splits prod.splits)

lemma store_edit_present:
  assumes "connectors S old = Some r" "r < length (objs W)"
    and "keeps_supervisor_state (u_stop (connector_class S))"
    and "\<forall>c. fst (u_stop (connector_class S) c) = None"
    and "\<not> start_in_greenlet (connector_class S)"
  shows "\<exists>S' W'. store_edit S old cfg W = Some (None, S', W')
     \<and> connectors S' = ((connectors S)(old := None))(cfg_name cfg \<mapsto> r)
     \<and> name (objs W' ! r) = cfg_name cfg
     \<and> config (objs W' ! r) = cfg\<lparr>cfg_prev_address := Some (cfg_address (config (objs W ! r)))\<rparr>"
proof -
  let ?K = "connector_class S"
  obtain e c' ev where ed: "edit ?K old cfg (objs W ! r) (events W @ [Acquire Store_lock])
        = Some (e, c', (events W @ [Acquire Store_lock]) @ ev)"
     "name c' = cfg_name cfg"
     "config c' = cfg\<lparr>cfg_prev_address := Some (cfg_address (config (objs W ! r)))\<rparr>"
     "e = fst (u_stop ?K ((u_edit old (cfg\<lparr>cfg_prev_address := Some (cfg_address (config (objs W ! r)))\<rparr>) (objs W ! r))
              \<lparr>keep_connecting := False, keep_running := False\<rparr>))"
    using edit_frame [OF assms(3) assms(5), of old cfg "objs W ! r" "events W @ [Acquire Store_lock]"] by blast
  have "e = None" using ed(4) assms(4) by simp
  with ed assms(1,2) show ?thesis
    by (simp add: store_edit_def getitem_simps Let_def)
qed

lemma store_delete_absent:
  "connectors S nm = None \<Longrightarrow>
   store_delete S nm W =
     (Some KeyError, S, \<lparr> objs = objs W, events = events W @ [Acquire Store_lock, Release Store_lock] \<rparr>)"
  by (simp add: store_delete_def getitem_simps Let_def)

lemma store_invoke_absent:
  "connectors S nm = None \<Longrightarrow> store_invoke S nm W = (Some KeyError, S, W)"
  by (simp add: store_invoke_def getitem_simps)

lemma store_delete_present:
  assumes "connectors S nm = Some r"
    and "fst (u_stop (connector_class S) ((objs W ! r)\<lparr>keep_connecting := False, keep_running := False\<rparr>)) = None"
  shows "store_delete S nm W =
     (None, S\<lparr>connectors := (connectors S)(nm := None)\<rparr>,
      \<lparr> objs = (objs W)[r := fst (snd (stop (connector_class S) (objs W ! r) (events W @ [Acquire Store_lock])))],
        events = snd (snd (stop (connector_class S) (objs W ! r) (events W @ [Acquire Store_lock])))
                   @ [Release Store_lock] \<rparr>)"
proof -
  obtain e c1 tr1 where s: "stop (connector_class S) (objs W ! r) (events W @ [Acquire Store_lock]) = (e, c1, tr1)"
    by (cases "stop (connector_class S) (objs W ! r) (events W @ [Acquire Store_lock])") auto
  then have "e = None" using assms(2) by (simp add: stop_eq)
  with s assms(1) show ?thesis
    by (simp add: store_delete_def getitem_simps Let_def)
qed

lemma example_store_sel [simp]:
  "connector_class example_store = Stub []"
  "connectors example_store ''orders'' = Some 0"
  "connectors example_store ''billing'' = None"
  "stype example_store = ''ZeroMQ outgoing''"
  "objs example_world = [new_stub [] True]"
  "events example_world = []"
  by (simp_all add: example_store_def example_world_def ConnectorStore_init_def)

subsection \<open>C1: the reconnect loop\<close>

text \<open>
  C1, as amended. Let the connect stub fail \<open>K = length P\<close> times and then succeed, each failure
  either raising an exception of class \<^verbatim>\<open>Exception\<close> or returning with \<^verbatim>\<open>is_connected\<close> still
  false. Then \<^verbatim>\<open>start\<close> returns normally with \<^verbatim>\<open>is_connected\<close> true after \<open>K + 1\<close> calls of
  \<^verbatim>\<open>_start\<close>: no failure ends the loop. Every raising failure is logged at warn level with its
  traceback and followed by a 2-second pause; a failure that returns is retried at once, with
  neither. Besides, the loop warns "Could not connect" whenever its attempt counter is a
  multiple of 10; the number of these warnings lies between \<open>\<lfloor>K/10\<rfloor>\<close> and \<open>\<lceil>K/10\<rceil>\<close>. The total
  number of warn-level records is the number of raising failures plus these.
\<close>

theorem retry_loop_on_stub:
  assumes "keep_connecting c" and "\<not> is_connected c"
    and "connector.more c = P" and "list_all retriable P"
  shows "\<exists>c' ev. start (Stub P0) c tr = Some (None, c', tr @ ev)
     \<and> is_connected c' \<and> \<not> keep_connecting c' \<and> keep_running c'
     \<and> count_list ev (Call M_start) = length P + 1
     \<and> length (filter traceback ev) = length (filter raises P)
     \<and> count_list ev (Sleep 2) = length (filter raises P)
     \<and> length (filter could_not_connect ev) = (length P + 1) div 10
     \<and> length P div 10 \<le> length (filter could_not_connect ev)
     \<and> length (filter could_not_connect ev) \<le> (length P + 9) div 10
     \<and> length (filter warning ev) = length (filter raises P) + (length P + 1) div 10"
proof -
  let ?ev = "Log Debug (Start_stop ''Starting'' (ctype c) (name c) []) # retry_events (name c) 0 P
          @ [Log Info (Start_stop '' Started'' (ctype c) (name c) [])]"
  have cnc: "length (filter could_not_connect ?ev) = (length P + 1) div 10"
    using retry_events_could_not_connect [of "name c" 0 P] by simp
  have "start (Stub P0) c tr = Some (None,
       c\<lparr>is_connected := True, keep_connecting := False, keep_running := True, connector.more := []\<rparr>,
       tr @ ?ev)"
    using start_stub [OF assms] by simp
  moreover have "count_list ?ev (Call M_start) = length P + 1"
    by (simp add: retry_events_calls)
  moreover have "length (filter traceback ?ev) = length (filter raises P)"
    by (simp add: retry_events_traceback)
  moreover have "count_list ?ev (Sleep 2) = length (filter raises P)"
    by (simp add: retry_events_sleep)
  moreover have "length (filter warning ?ev) = length (filter raises P) + (length P + 1) div 10"
    using cnc by (simp add: retry_events_warning)
  moreover note cnc floor_ceiling_tenths [of "length P"]
  ultimately show ?thesis
    by (intro exI [of _ "c\<lparr>is_connected := True, keep_connecting := False, keep_running := True,
          connector.more := []\<rparr>"] exI [of _ ?ev]) simp
qed

theorem retry_loop_on_stub_witness:
  "\<exists>c' ev. start (Stub (replicate 9 (Raises (OtherException ''refused'')) @ [Returns_unconnected]))
        (new_stub (replicate 9 (Raises (OtherException ''refused'')) @ [Returns_unconnected]) True) []
      = Some (None, c', ev)
     \<and> is_connected c'
     \<and> count_list ev (Call M_start) = 11
     \<and> length (filter traceback ev) = 9
     \<and> count_list ev (Sleep 2) = 9
     \<and> length (filter could_not_connect ev) = 1
     \<and> length (filter warning ev) = 10"
  using retry_loop_on_stub [of
      "new_stub (replicate 9 (Raises (OtherException ''refused'')) @ [Returns_unconnected]) True"
      "replicate 9 (Raises (OtherException ''refused'')) @ [Returns_unconnected]"
      "replicate 9 (Raises (OtherException ''refused'')) @ [Returns_unconnected]" "[]"]
  by (auto simp add: new_stub_def Connector_init_def list_all_iff)

text \<open>
  C1 as stated fails. Two failures that raise give two warn-level records, more than
  \<open>\<lceil>2/10\<rceil> = 1\<close>; and a failure that returns is followed by the next call of \<^verbatim>\<open>_start\<close> with no
  pause in between.
\<close>

theorem retry_loop_counterexample:
  "map_option (is_connected \<circ> fst \<circ> snd)
     (start (Stub [Raises TypeError, Raises TypeError])
        (new_stub [Raises TypeError, Raises TypeError] True) []) = Some True
   \<and> map_option (length \<circ> filter warning \<circ> snd \<circ> snd)
     (start (Stub [Raises TypeError, Raises TypeError])
        (new_stub [Raises TypeError, Raises TypeError] True) []) = Some 2
   \<and> \<not> (2::nat) \<le> (2 + 9) div 10
   \<and> map_option (snd \<circ> snd)
     (start (Stub [Returns_unconnected]) (new_stub [Returns_unconnected] True) [])
     = Some [Log Debug (Start_stop ''Starting'' ''ZeroMQ outgoing'' ''orders'' []),
             Call M_start, Call M_start,
             Log Info (Start_stop '' Started'' ''ZeroMQ outgoing'' ''orders'' [])]"
  by code_simp

subsection \<open>C2: inactive connectors\<close>

text \<open>
  C2, as amended. A connector built from a config with \<^verbatim>\<open>is_active\<close> false rejects every
  \<^verbatim>\<open>send\<close> with \<^verbatim>\<open>Inactive\<close>, without calling \<^verbatim>\<open>_send\<close>. \<^verbatim>\<open>start\<close>, however, does not look at
  the activation flag: on an inactive connector it runs the reconnect loop as on an active one.
  With the connect stub that fails \<open>length P\<close> times, \<^verbatim>\<open>start\<close> calls \<^verbatim>\<open>_start\<close>
  \<open>length P + 1\<close> times and reaches \<^verbatim>\<open>is_connected\<close>; the connected connector still rejects
  \<^verbatim>\<open>send\<close>.
\<close>

theorem inactive_connector:
  assumes "\<not> cfg_is_active cfg" and "list_all retriable P"
  shows "send K m (Connector_init K nm ty cfg cb af) tr =
      (Some Inactive, Connector_init K nm ty cfg cb af,
       tr @ [Acquire Connector_lock, Release Connector_lock])
    \<and> (\<exists>c' ev. start (Stub P) (Connector_init (Stub P) nm ty cfg cb af) tr = Some (None, c', tr @ ev)
          \<and> count_list ev (Call M_start) = length P + 1
          \<and> is_connected c'
          \<and> send (Stub P) m c' tr2 = (Some Inactive, c', tr2 @ [Acquire Connector_lock, Release Connector_lock]))"
proof -
  let ?c = "Connector_init (Stub P) nm ty cfg cb af"
  have "is_inactive (Connector_init K nm ty cfg cb af)"
    using assms(1) by (simp add: Connector_init_def)
  then have first: "send K m (Connector_init K nm ty cfg cb af) tr =
      (Some Inactive, Connector_init K nm ty cfg cb af,
       tr @ [Acquire Connector_lock, Release Connector_lock])"
    by (simp add: send_eq)
  have "start (Stub P) ?c tr =
     Some (None,
       ?c\<lparr>is_connected := True, keep_connecting := False, keep_running := True, connector.more := []\<rparr>,
       tr @ Log Debug (Start_stop ''Starting'' (ctype ?c) (name ?c) []) # retry_events (name ?c) 0 P
          @ [Log Info (Start_stop '' Started'' (ctype ?c) (name ?c) [])])"
    using assms(2) by (intro start_stub) (simp_all add: Connector_init_def)
  moreover have "is_inactive (?c\<lparr>is_connected := True, keep_connecting := False, keep_running := True,
      connector.more := []\<rparr>)"
    using assms(1) by (simp add: Connector_init_def)
  ultimately show ?thesis
    using first by (simp add: send_eq retry_events_calls)
qed

theorem inactive_connector_witness:
  "send (Stub [Returns_unconnected]) ''hello'' (new_stub [Returns_unconnected] False) [] =
      (Some Inactive, new_stub [Returns_unconnected] False, [Acquire Connector_lock, Release Connector_lock])
    \<and> (\<exists>c' ev. start (Stub [Returns_unconnected]) (new_stub [Returns_unconnected] False) [] = Some (None, c', ev)
          \<and> count_list ev (Call M_start) = 2
          \<and> is_connected c'
          \<and> send (Stub [Returns_unconnected]) ''hello'' c' [] =
               (Some Inactive, c', [Acquire Connector_lock, Release Connector_lock]))"
  using inactive_connector [of "example_config False" "[Returns_unconnected]" "Stub [Returns_unconnected]"
      "''hello''" "''orders''" "''ZeroMQ outgoing''" None None "[]" "[]"]
  by (auto simp add: new_stub_def example_config_def)

text \<open>
  C2 as stated fails: starting an inactive connector calls \<^verbatim>\<open>_start\<close> and connects.
\<close>

theorem inactive_connector_counterexample:
  "is_inactive (new_stub [] False)
   \<and> map_option (snd \<circ> snd) (start (Stub []) (new_stub [] False) []) =
       Some [Log Debug (Start_stop ''Starting'' ''ZeroMQ outgoing'' ''orders'' []),
             Call M_start,
             Log Info (Start_stop '' Started'' ''ZeroMQ outgoing'' ''orders'' [])]
   \<and> map_option (is_connected \<circ> fst \<circ> snd) (start (Stub []) (new_stub [] False) []) = Some True"
  by code_simp

subsection \<open>C3: what send checks\<close>

text \<open>
  What \<^verbatim>\<open>send\<close> does is \<open>send_eq\<close>: it raises \<^verbatim>\<open>Inactive\<close>, without calling \<^verbatim>\<open>_send\<close>, exactly
  when the attribute \<^verbatim>\<open>is_inactive\<close> is true, and otherwise calls \<^verbatim>\<open>_send\<close> between acquiring
  and releasing the connector's lock. The constructor derives the attribute from the config;
  \<^verbatim>\<open>edit\<close> installs a new config and leaves the attribute as it was (\<open>edit_frame\<close>).

  C3 requires that \<^verbatim>\<open>send\<close> raises \<^verbatim>\<open>Inactive\<close> if and only if the current config, also one
  installed by a later edit, has \<^verbatim>\<open>is_active\<close> false. The code does otherwise on a connector
  whose activation an edit has changed: built active and edited to an inactive config, it still
  passes the message to \<^verbatim>\<open>_send\<close>; built inactive and edited to an active config, it still
  raises \<^verbatim>\<open>Inactive\<close>.
\<close>

theorem send_after_edit_stale_flag:
  "map_option fst (edit_then_send (Stub []) (example_config False) ''hello'' (new_stub [] True)) = Some None
   \<and> map_option (cfg_is_active \<circ> config \<circ> fst \<circ> snd)
       (edit_then_send (Stub []) (example_config False) ''hello'' (new_stub [] True)) = Some False
   \<and> map_option (is_inactive \<circ> fst \<circ> snd)
       (edit_then_send (Stub []) (example_config False) ''hello'' (new_stub [] True)) = Some False
   \<and> map_option (snd \<circ> snd)
       (edit_then_send (Stub []) (example_config False) ''hello'' (new_stub [] True)) =
       Some [Acquire Connector_lock,
             Log Debug (Start_stop ''Stopping'' ''ZeroMQ outgoing'' ''orders'' []), Call M_stop,
             Log Info (Start_stop '' Stopped'' ''ZeroMQ outgoing'' ''orders'' []),
             Log Debug (Start_stop ''Starting'' ''ZeroMQ outgoing'' ''orders'' []),
             Log Info (Start_stop '' Started'' ''ZeroMQ outgoing'' ''orders'' []),
             Release Connector_lock,
             Acquire Connector_lock, Call (M_send ''hello''), Release Connector_lock]
   \<and> map_option fst (edit_then_send (Stub []) (example_config True) ''hello'' (new_stub [] False))
       = Some (Some Inactive)
   \<and> map_option (cfg_is_active \<circ> config \<circ> fst \<circ> snd)
       (edit_then_send (Stub []) (example_config True) ''hello'' (new_stub [] False)) = Some True"
  by code_simp

subsection \<open>C4: exceptions in start and stop\<close>

text \<open>
  C4, as amended. \<^verbatim>\<open>start\<close> never lets an exception of class \<^verbatim>\<open>Exception\<close> reach its caller,
  whether the loop runs synchronously or is dispatched; run synchronously, it lets no
  \<^verbatim>\<open>KeyboardInterrupt\<close> through either. An exception of class \<^verbatim>\<open>Exception\<close> that the dispatch
  raises is logged at warn level, and \<^verbatim>\<open>start\<close> returns normally. \<^verbatim>\<open>start\<close> returns unless its
  synchronous loop runs forever. \<^verbatim>\<open>stop\<close> has no handler: it raises exactly what the \<^verbatim>\<open>_stop\<close> hook raises, called
  after both flags are cleared.
\<close>

theorem start_swallows_stop_propagates:
  "(start K c tr = Some (Some e, c', tr') \<longrightarrow> \<not> is_Exception e)
   \<and> (start K c tr = Some (Some e, c', tr') \<and> \<not> start_in_greenlet K \<longrightarrow> e \<noteq> KeyboardInterrupt)
   \<and> (start_in_greenlet K \<and> spawn_greenlet K (c\<lparr>keep_running := True\<rparr>) = (Some e2, c2) \<and> is_Exception e2
        \<longrightarrow> start K c tr =
          Some (None, c2,
            tr @ [Log Debug (Start_stop ''Starting'' (ctype c) (name c) []), Call M_spawn_greenlet,
                  Log Warn (Traceback e2),
                  Log Info (Start_stop '' Started'' (ctype c2) (name c2) (get_log_details K c2))]))
   \<and> (start K c tr = None) =
       (\<not> start_in_greenlet K \<and>
        u_start_loop K (c\<lparr>keep_running := True\<rparr>) (u_debug_start_stop ''Starting'' c tr) = None)
   \<and> fst (stop K c tr) = fst (u_stop K (c\<lparr>keep_connecting := False, keep_running := False\<rparr>))"
  using start_uncaught [of K c tr e c' tr'] start_sync_no_interrupt [of K c tr e c' tr']
    start_returns_iff [of K c tr] start_dispatch_caught [of K c e2 c2 tr]
  by (simp add: stop_eq)

theorem start_swallows_stop_propagates_witness:
  "start (Stub [Raises SystemExit]) (new_stub [Raises SystemExit] True) [] =
     Some (Some SystemExit,
           (new_stub [Raises SystemExit] True)\<lparr>keep_running := True, connector.more := []\<rparr>,
           [Log Debug (Start_stop ''Starting'' ''ZeroMQ outgoing'' ''orders'' []), Call M_start,
            Log Info (Start_stop '' Started'' ''ZeroMQ outgoing'' ''orders'' [])])
   \<and> \<not> is_Exception SystemExit \<and> SystemExit \<noteq> KeyboardInterrupt
   \<and> start Stub_in_greenlet (new_stub [] True) [] =
     Some (None, (new_stub [] True)\<lparr>keep_running := True\<rparr>,
           [Log Debug (Start_stop ''Starting'' ''ZeroMQ outgoing'' ''orders'' []), Call M_spawn_greenlet,
            Log Warn (Traceback (OtherException ''connection refused'')),
            Log Info (Start_stop '' Started'' ''ZeroMQ outgoing'' ''orders'' [])])
   \<and> fst (stop (Stub [Raises SystemExit]) (new_stub [Raises SystemExit] True) []) = None"
proof -
  have "start (Stub [Raises SystemExit]) (new_stub [Raises SystemExit] True) [] =
     Some (Some SystemExit,
           (new_stub [Raises SystemExit] True)\<lparr>keep_running := True, connector.more := []\<rparr>,
           [Log Debug (Start_stop ''Starting'' ''ZeroMQ outgoing'' ''orders'' []), Call M_start,
            Log Info (Start_stop '' Started'' ''ZeroMQ outgoing'' ''orders'' [])])"
    by code_simp
  then show ?thesis
    using start_swallows_stop_propagates [of "Stub [Raises SystemExit]" "new_stub [Raises SystemExit] True" "[]"
        SystemExit "(new_stub [Raises SystemExit] True)\<lparr>keep_running := True, connector.more := []\<rparr>"
        "[Log Debug (Start_stop ''Starting'' ''ZeroMQ outgoing'' ''orders'' []), Call M_start,
            Log Info (Start_stop '' Started'' ''ZeroMQ outgoing'' ''orders'' [])]"]
      start_swallows_stop_propagates [of Stub_in_greenlet "new_stub [] True" "[]" SystemExit "new_stub [] True" "[]"
        "OtherException ''connection refused''" "(new_stub [] True)\<lparr>keep_running := True\<rparr>"]
    by (simp add: Connector_u_stop_def Stub_in_greenlet_def refusing_dispatch_def new_stub_def Connector_init_def
        Connector_get_log_details_def Stub_def Connector_def)
qed

text \<open>C4 as stated fails: when \<^verbatim>\<open>_stop\<close> raises, \<^verbatim>\<open>stop\<close> raises the same exception.\<close>

theorem stop_propagates_counterexample:
  "fst (stop (Stub_failing_stop []) (new_stub [] True) []) = Some (OtherException ''cannot close'')"
  by code_simp

subsection \<open>C5: the state after stop\<close>

text \<open>
  C5, as amended. After \<^verbatim>\<open>stop\<close>, \<^verbatim>\<open>keep_running\<close> and \<^verbatim>\<open>keep_connecting\<close> are false, for
  every class whose \<^verbatim>\<open>_stop\<close> keeps the supervisor's attributes. \<^verbatim>\<open>stop\<close> itself does not
  assign \<^verbatim>\<open>is_connected\<close>: its value afterwards is the one \<^verbatim>\<open>_stop\<close> leaves, and with the
  \<^verbatim>\<open>_stop\<close> of \<^verbatim>\<open>Connector\<close> it is the value before the call.
\<close>

theorem stop_leaves_is_connected:
  assumes "keeps_supervisor_state (u_stop K)"
  shows "\<not> keep_running (fst (snd (stop K c tr)))
    \<and> \<not> keep_connecting (fst (snd (stop K c tr)))
    \<and> is_connected (fst (snd (stop K c tr))) =
        is_connected (snd (u_stop K (c\<lparr>keep_connecting := False, keep_running := False\<rparr>)))
    \<and> is_connected (fst (snd (stop (K\<lparr>u_stop := Connector_u_stop\<rparr>) c tr))) = is_connected c"
  using stop_flags(1,2) [OF assms, of c tr] by (simp add: stop_eq Connector_u_stop_def)

theorem stop_leaves_is_connected_witness:
  "\<not> keep_running (fst (snd (stop (Stub []) ((new_stub [] True)\<lparr>is_connected := True, keep_running := True\<rparr>) [])))
    \<and> \<not> keep_connecting (fst (snd (stop (Stub []) ((new_stub [] True)\<lparr>is_connected := True, keep_running := True\<rparr>) [])))
    \<and> is_connected (fst (snd (stop (Stub []) ((new_stub [] True)\<lparr>is_connected := True, keep_running := True\<rparr>) [])))"
  using stop_leaves_is_connected [of "Stub []" "(new_stub [] True)\<lparr>is_connected := True, keep_running := True\<rparr>" "[]"]
  by (simp add: Connector_u_stop_def)

text \<open>
  C5 as stated fails: a connector that has connected and is then stopped (with the inherited
  \<^verbatim>\<open>_stop\<close>) still has \<^verbatim>\<open>is_connected\<close> true.
\<close>

theorem stop_leaves_is_connected_counterexample:
  "map_option fst (start_then_stop (Stub []) (new_stub [] True)) = Some None
   \<and> map_option (is_connected \<circ> fst \<circ> snd) (start_then_stop (Stub []) (new_stub [] True)) = Some True
   \<and> map_option (keep_running \<circ> fst \<circ> snd) (start_then_stop (Stub []) (new_stub [] True)) = Some False"
  by code_simp

subsection \<open>C6: keep_connecting is never set again\<close>

text \<open>
  C6. The constructor sets \<^verbatim>\<open>keep_connecting\<close>; no operation sets it again. For a class that
  starts synchronously and whose \<^verbatim>\<open>_stop\<close> keeps the supervisor's attributes: once the flag is
  false, \<^verbatim>\<open>start\<close> returns normally without a single call of \<^verbatim>\<open>_start\<close> and leaves the flag
  false; a \<^verbatim>\<open>start\<close> that returns normally leaves it false (so it is false after a successful
  connect); \<^verbatim>\<open>stop\<close> leaves it false; \<^verbatim>\<open>restart\<close> and \<^verbatim>\<open>edit\<close> return, from any state,
  without a call of \<^verbatim>\<open>_start\<close> and with the flag false.
\<close>

theorem keep_connecting_never_reset:
  assumes "keeps_supervisor_state (u_stop K)" and "\<not> start_in_greenlet K"
  shows "keep_connecting (Connector_init K nm ty cfg0 cb af)
    \<and> (\<not> keep_connecting c \<longrightarrow>
         (\<exists>ev. start K c tr = Some (None, c\<lparr>keep_running := True\<rparr>, tr @ ev)
            \<and> count_list ev (Call M_start) = 0))
    \<and> (start K c tr = Some (None, c', tr') \<longrightarrow> \<not> keep_connecting c')
    \<and> \<not> keep_connecting (fst (snd (stop K c tr)))
    \<and> (\<exists>r c1 ev. restart K c tr = Some (r, c1, tr @ ev) \<and> \<not> keep_connecting c1
          \<and> count_list ev (Call M_start) = 0)
    \<and> (\<exists>r c1 ev. edit K old cfg c tr = Some (r, c1, tr @ ev) \<and> \<not> keep_connecting c1
          \<and> count_list ev (Call M_start) = 0)"
proof -
  have "\<exists>r c1 ev. restart K c tr = Some (r, c1, tr @ ev) \<and> \<not> keep_connecting c1
          \<and> count_list ev (Call M_start) = 0"
    using restart_frame [OF assms, of c tr] by blast
  moreover have "\<exists>r c1 ev. edit K old cfg c tr = Some (r, c1, tr @ ev) \<and> \<not> keep_connecting c1
          \<and> count_list ev (Call M_start) = 0"
    using edit_frame [OF assms, of old cfg c tr] by blast
  moreover have "\<not> keep_connecting c \<longrightarrow>
         (\<exists>ev. start K c tr = Some (None, c\<lparr>keep_running := True\<rparr>, tr @ ev)
            \<and> count_list ev (Call M_start) = 0)"
    using start_idle_events [OF _ assms(2), of c tr] by blast
  moreover have "start K c tr = Some (None, c', tr') \<longrightarrow> \<not> keep_connecting c'"
    using start_sync_normal_exit [OF _ assms(2), of c tr c' tr'] by blast
  moreover have "keep_connecting (Connector_init K nm ty cfg0 cb af)"
    by (simp add: Connector_init_def)
  ultimately show ?thesis
    using stop_flags(1) [OF assms(1), of c tr] by blast
qed

theorem keep_connecting_never_reset_witness:
  "(\<exists>ev. start (Stub []) ((new_stub [] True)\<lparr>keep_connecting := False\<rparr>) [] =
        Some (None, (new_stub [] True)\<lparr>keep_connecting := False, keep_running := True\<rparr>, ev)
      \<and> count_list ev (Call M_start) = 0)
   \<and> map_option (keep_connecting \<circ> fst \<circ> snd) (start (Stub []) (new_stub [] True) []) = Some False
   \<and> (\<exists>r c1 ev. restart (Stub []) (new_stub [] True) [] = Some (r, c1, ev) \<and> \<not> keep_connecting c1
          \<and> count_list ev (Call M_start) = 0)
   \<and> (\<exists>r c1 ev. edit (Stub []) ''orders'' (example_config True) (new_stub [] True) [] = Some (r, c1, ev)
          \<and> \<not> keep_connecting c1 \<and> count_list ev (Call M_start) = 0)"
proof -
  obtain c' tr' where st: "start (Stub []) (new_stub [] True) [] = Some (None, c', tr')"
    using start_stub [of "new_stub [] True" "[]" "[]" "[]"]
    by (simp add: new_stub_def Connector_init_def)
  have "\<not> keep_connecting c'"
    using keep_connecting_never_reset [of "Stub []" "''orders''" "''ZeroMQ outgoing''" "example_config True"
      None None "new_stub [] True" "[]" c' tr' "''orders''" "example_config True"] st
    by simp
  with st have "map_option (keep_connecting \<circ> fst \<circ> snd) (start (Stub []) (new_stub [] True) []) = Some False"
    by simp
  then show ?thesis
    using keep_connecting_never_reset [of "Stub []" "''orders''" "''ZeroMQ outgoing''" "example_config True"
      None None "(new_stub [] True)\<lparr>keep_connecting := False\<rparr>" "[]"
      "(new_stub [] True)\<lparr>keep_connecting := False\<rparr>" "[]" "''orders''" "example_config True"]
    keep_connecting_never_reset [of "Stub []" "''orders''" "''ZeroMQ outgoing''" "example_config True"
      None None "new_stub [] True" "[]" "new_stub [] True" "[]" "''orders''" "example_config True"]
    by auto
qed

subsection \<open>C7: ConnectorStore.edit renames\<close>

text \<open>
  C7. If \<open>old\<close> is absent, \<^verbatim>\<open>ConnectorStore.edit\<close> raises \<^verbatim>\<open>KeyError\<close> and changes nothing in
  the registry. Whenever it returns normally with a config whose name differs from \<open>old\<close>,
  looking up \<open>old\<close> raises \<^verbatim>\<open>KeyError\<close> and the new name holds the reference that \<open>old\<close>
  held. For a class that starts synchronously and whose \<^verbatim>\<open>_stop\<close> does not raise and keeps
  the supervisor's attributes, it does return normally, and the object behind the reference
  then has the new name and the new config (with \<^verbatim>\<open>prev_address\<close> set to the address of the
  config it replaces).
\<close>

theorem store_edit_renames:
  "(connectors S old = None \<longrightarrow>
      store_edit S old cfg W =
        Some (Some KeyError, S,
              \<lparr> objs = objs W, events = events W @ [Acquire Store_lock, Release Store_lock] \<rparr>))
   \<and> (store_edit S old cfg W = Some (None, S1, W1) \<and> cfg_name cfg \<noteq> old \<longrightarrow>
        getitem S1 old = Inl KeyError
        \<and> (\<exists>r. getitem S old = Inr r \<and> getitem S1 (cfg_name cfg) = Inr r))
   \<and> (connectors S old = Some r \<and> r < length (objs W) \<and> cfg_name cfg \<noteq> old
        \<and> keeps_supervisor_state (u_stop (connector_class S))
        \<and> (\<forall>c. fst (u_stop (connector_class S) c) = None)
        \<and> \<not> start_in_greenlet (connector_class S) \<longrightarrow>
        (\<exists>S' W'. store_edit S old cfg W = Some (None, S', W')
           \<and> getitem S' old = Inl KeyError
           \<and> getitem S' (cfg_name cfg) = Inr r
           \<and> name (objs W' ! r) = cfg_name cfg
           \<and> config (objs W' ! r) = cfg\<lparr>cfg_prev_address := Some (cfg_address (config (objs W ! r)))\<rparr>))"
proof (intro conjI impI)
  assume "connectors S old = None"
  then show "store_edit S old cfg W =
        Some (Some KeyError, S,
              \<lparr> objs = objs W, events = events W @ [Acquire Store_lock, Release Store_lock] \<rparr>)"
    by (rule store_edit_absent)
next
  assume a: "store_edit S old cfg W = Some (None, S1, W1) \<and> cfg_name cfg \<noteq> old"
  then obtain r where "getitem S old = Inr r" "connectors S1 = ((connectors S)(old := None))(cfg_name cfg \<mapsto> r)"
    using store_edit_returned [of S old cfg W S1 W1] by blast
  with a show "\<exists>r. getitem S old = Inr r \<and> getitem S1 (cfg_name cfg) = Inr r"
    by (simp add: getitem_def)
  from a \<open>connectors S1 = ((connectors S)(old := None))(cfg_name cfg \<mapsto> r)\<close>
  show "getitem S1 old = Inl KeyError"
    by (auto simp add: getitem_def)
next
  assume a: "connectors S old = Some r \<and> r < length (objs W) \<and> cfg_name cfg \<noteq> old
        \<and> keeps_supervisor_state (u_stop (connector_class S))
        \<and> (\<forall>c. fst (u_stop (connector_class S) c) = None)
        \<and> \<not> start_in_greenlet (connector_class S)"
  then obtain S' W' where "store_edit S old cfg W = Some (None, S', W')"
     "connectors S' = ((connectors S)(old := None))(cfg_name cfg \<mapsto> r)"
     "name (objs W' ! r) = cfg_name cfg"
     "config (objs W' ! r) = cfg\<lparr>cfg_prev_address := Some (cfg_address (config (objs W ! r)))\<rparr>"
    using store_edit_present [of S old r W cfg] by blast
  with a show "\<exists>S' W'. store_edit S old cfg W = Some (None, S', W')
           \<and> getitem S' old = Inl KeyError
           \<and> getitem S' (cfg_name cfg) = Inr r
           \<and> name (objs W' ! r) = cfg_name cfg
           \<and> config (objs W' ! r) = cfg\<lparr>cfg_prev_address := Some (cfg_address (config (objs W ! r)))\<rparr>"
    by (auto simp add: getitem_def)
qed

theorem store_edit_renames_witness:
  "store_edit example_store ''billing'' ((example_config True)\<lparr>cfg_name := ''invoices''\<rparr>) example_world =
     Some (Some KeyError, example_store,
           \<lparr> objs = [new_stub [] True], events = [Acquire Store_lock, Release Store_lock] \<rparr>)
   \<and> (\<exists>S' W'. store_edit example_store ''orders'' ((example_config True)\<lparr>cfg_name := ''invoices''\<rparr>) example_world
          = Some (None, S', W')
        \<and> getitem S' ''orders'' = Inl KeyError
        \<and> getitem example_store ''orders'' = Inr 0
        \<and> getitem S' ''invoices'' = Inr 0
        \<and> name (objs W' ! 0) = ''invoices''
        \<and> cfg_prev_address (config (objs W' ! 0)) = Some ''tcp://10.0.0.1:5555'')"
proof -
  let ?cfg = "(example_config True)\<lparr>cfg_name := ''invoices''\<rparr>"
  have absent: "store_edit example_store ''billing'' ?cfg example_world =
     Some (Some KeyError, example_store,
           \<lparr> objs = [new_stub [] True], events = [Acquire Store_lock, Release Store_lock] \<rparr>)"
    using store_edit_renames [of example_store "''billing''" ?cfg example_world example_store example_world 0]
    by simp
  obtain S' W' where ed: "store_edit example_store ''orders'' ?cfg example_world = Some (None, S', W')"
    and obj: "name (objs W' ! 0) = ''invoices''"
      "cfg_prev_address (config (objs W' ! 0)) = Some ''tcp://10.0.0.1:5555''"
    using store_edit_renames [of example_store "''orders''" ?cfg example_world example_store example_world 0]
    by (auto simp add: example_config_def new_stub_def Connector_init_def Connector_u_stop_def)
  have "getitem S' ''orders'' = Inl KeyError \<and> getitem example_store ''orders'' = Inr 0
      \<and> getitem S' ''invoices'' = Inr 0"
    using store_edit_renames [of example_store "''orders''" ?cfg example_world S' W' 0] ed
    by (auto simp add: example_config_def getitem_def Connector_u_stop_def)
  with absent ed obj show ?thesis by blast
qed

subsection \<open>A class whose stop hook raises\<close>

lemma keeps_supervisor_state_failing [simp]: "keeps_supervisor_state failing_u_stop"
  by (simp add: keeps_supervisor_state_def failing_u_stop_def)

lemma Stub_failing_stop_sel [simp]:
  "u_stop (Stub_failing_stop P) = failing_u_stop"
  "get_prev_log_details (Stub_failing_stop P) c = []"
  "invoke (Stub_failing_stop P) = Connector_invoke"
  by (simp_all add: Stub_failing_stop_def Stub_def Connector_def Connector_get_log_details_def)

lemma failing_store_sel [simp]:
  "connector_class failing_store = Stub_failing_stop []"
  "connectors failing_store ''orders'' = Some 0"
  by (simp_all add: failing_store_def ConnectorStore_init_def)

lemma store_delete_raises:
  assumes "connectors S nm = Some r"
    and "fst (u_stop (connector_class S) ((objs W ! r)\<lparr>keep_connecting := False, keep_running := False\<rparr>)) = Some e"
  shows "store_delete S nm W =
     (Some e, S,
      \<lparr> objs = (objs W)[r := fst (snd (stop (connector_class S) (objs W ! r) (events W @ [Acquire Store_lock])))],
        events = snd (snd (stop (connector_class S) (objs W ! r) (events W @ [Acquire Store_lock])))
                   @ [Release Store_lock] \<rparr>)"
proof -
  obtain x c1 tr1 where s: "stop (connector_class S) (objs W ! r) (events W @ [Acquire Store_lock]) = (x, c1, tr1)"
    by (cases "stop (connector_class S) (objs W ! r) (events W @ [Acquire Store_lock])") auto
  then have "x = Some e" using assms(2) by (simp add: stop_eq)
  with s assms(1) show ?thesis
    by (simp add: store_delete_def getitem_simps Let_def)
qed

subsection \<open>C8: ConnectorStore.delete and invoke\<close>

text \<open>
  C8, as amended. For a name that is absent, \<^verbatim>\<open>delete\<close> and \<^verbatim>\<open>invoke\<close> raise \<^verbatim>\<open>KeyError\<close> and
  leave the registry and the connectors as they are. For a name that is present, \<^verbatim>\<open>delete\<close>
  stops the connector (one call of \<^verbatim>\<open>_stop\<close>, after both flags are cleared). If \<^verbatim>\<open>_stop\<close>
  returns normally, \<^verbatim>\<open>delete\<close> removes the entry, after which \<^verbatim>\<open>invoke\<close> with that name raises
  \<^verbatim>\<open>KeyError\<close>. If \<^verbatim>\<open>_stop\<close> raises, \<^verbatim>\<open>delete\<close> raises the same exception and the registry is
  as before: the name is still present.
\<close>

theorem store_delete_then_invoke:
  "(connectors S nm = None \<longrightarrow>
      store_delete S nm W =
        (Some KeyError, S, \<lparr> objs = objs W, events = events W @ [Acquire Store_lock, Release Store_lock] \<rparr>)
      \<and> store_invoke S nm W = (Some KeyError, S, W))
   \<and> (connectors S nm = Some r \<and> r < length (objs W)
       \<and> fst (u_stop (connector_class S) ((objs W ! r)\<lparr>keep_connecting := False, keep_running := False\<rparr>)) = None
       \<longrightarrow>
       (\<exists>S' W' ev. store_delete S nm W = (None, S', W')
          \<and> connectors S' = (connectors S)(nm := None)
          \<and> objs W' ! r = fst (snd (stop (connector_class S) (objs W ! r) (events W @ [Acquire Store_lock])))
          \<and> events W' = events W @ ev \<and> count_list ev (Call M_stop) = 1
          \<and> store_invoke S' nm W' = (Some KeyError, S', W')))
   \<and> (connectors S nm = Some r \<and> r < length (objs W)
       \<and> fst (u_stop (connector_class S) ((objs W ! r)\<lparr>keep_connecting := False, keep_running := False\<rparr>)) = Some e
       \<longrightarrow>
       (\<exists>W' ev. store_delete S nm W = (Some e, S, W')
          \<and> objs W' ! r = fst (snd (stop (connector_class S) (objs W ! r) (events W @ [Acquire Store_lock])))
          \<and> events W' = events W @ ev \<and> count_list ev (Call M_stop) = 1
          \<and> getitem S nm = Inr r))"
proof (intro conjI impI)
  assume "connectors S nm = None"
  then show "store_delete S nm W =
        (Some KeyError, S, \<lparr> objs = objs W, events = events W @ [Acquire Store_lock, Release Store_lock] \<rparr>)"
    and "store_invoke S nm W = (Some KeyError, S, W)"
    by (simp_all add: store_delete_absent store_invoke_absent)
next
  assume a: "connectors S nm = Some r \<and> r < length (objs W)
       \<and> fst (u_stop (connector_class S) ((objs W ! r)\<lparr>keep_connecting := False, keep_running := False\<rparr>)) = None"
  let ?st = "stop (connector_class S) (objs W ! r) (events W @ [Acquire Store_lock])"
  let ?S' = "S\<lparr>connectors := (connectors S)(nm := None)\<rparr>"
  let ?W' = "\<lparr> objs = (objs W)[r := fst (snd ?st)], events = snd (snd ?st) @ [Release Store_lock] \<rparr>"
  have d: "store_delete S nm W = (None, ?S', ?W')"
    using a store_delete_present [of S nm r W] by simp
  have ev: "\<exists>ev. events ?W' = events W @ ev \<and> count_list ev (Call M_stop) = 1"
    by (simp add: stop_eq)
  have "store_invoke ?S' nm ?W' = (Some KeyError, ?S', ?W')"
    by (rule store_invoke_absent) simp
  with d ev a show "\<exists>S' W' ev. store_delete S nm W = (None, S', W')
          \<and> connectors S' = (connectors S)(nm := None)
          \<and> objs W' ! r = fst (snd ?st)
          \<and> events W' = events W @ ev \<and> count_list ev (Call M_stop) = 1
          \<and> store_invoke S' nm W' = (Some KeyError, S', W')"
    by auto
next
  assume a: "connectors S nm = Some r \<and> r < length (objs W)
       \<and> fst (u_stop (connector_class S) ((objs W ! r)\<lparr>keep_connecting := False, keep_running := False\<rparr>)) = Some e"
  let ?st = "stop (connector_class S) (objs W ! r) (events W @ [Acquire Store_lock])"
  let ?W' = "\<lparr> objs = (objs W)[r := fst (snd ?st)], events = snd (snd ?st) @ [Release Store_lock] \<rparr>"
  have d: "store_delete S nm W = (Some e, S, ?W')"
    using a store_delete_raises [of S nm r W e] by simp
  have ev: "\<exists>ev. events ?W' = events W @ ev \<and> count_list ev (Call M_stop) = 1"
    by (simp add: stop_eq)
  with d a show "\<exists>W' ev. store_delete S nm W = (Some e, S, W')
          \<and> objs W' ! r = fst (snd ?st)
          \<and> events W' = events W @ ev \<and> count_list ev (Call M_stop) = 1
          \<and> getitem S nm = Inr r"
    by (auto simp add: getitem_def)
qed

theorem store_delete_then_invoke_witness:
  "store_delete example_store ''billing'' example_world =
        (Some KeyError, example_store,
         \<lparr> objs = [new_stub [] True], events = [Acquire Store_lock, Release Store_lock] \<rparr>)
   \<and> store_invoke example_store ''billing'' example_world = (Some KeyError, example_store, example_world)
   \<and> (\<exists>S' W'. store_delete example_store ''orders'' example_world = (None, S', W')
          \<and> connectors S' ''orders'' = None
          \<and> \<not> keep_running (objs W' ! 0) \<and> \<not> keep_connecting (objs W' ! 0)
          \<and> store_invoke S' ''orders'' W' = (Some KeyError, S', W'))
   \<and> (\<exists>W'. store_delete failing_store ''orders'' example_world =
               (Some (OtherException ''cannot close''), failing_store, W')
          \<and> \<not> keep_running (objs W' ! 0) \<and> \<not> keep_connecting (objs W' ! 0))"
  using store_delete_then_invoke [of example_store "''billing''" example_world 0 KeyError]
    store_delete_then_invoke [of example_store "''orders''" example_world 0 KeyError]
    store_delete_then_invoke [of failing_store "''orders''" example_world 0 "OtherException ''cannot close''"]
  by (auto simp add: Connector_u_stop_def failing_u_stop_def stop_eq)

text \<open>
  C8 as stated fails: with a \<^verbatim>\<open>_stop\<close> that raises, \<^verbatim>\<open>delete\<close> of a present name raises that
  exception and the entry stays, so the lookup of a later \<^verbatim>\<open>invoke\<close> succeeds and the call
  reaches the connector (which, like \<^verbatim>\<open>Connector\<close>, has no \<^verbatim>\<open>invoke\<close>): it does not fail with
  \<^verbatim>\<open>KeyError\<close>.
\<close>

theorem store_delete_counterexample:
  "fst (store_delete failing_store ''orders'' example_world) = Some (OtherException ''cannot close'')
   \<and> getitem (fst (snd (store_delete failing_store ''orders'' example_world))) ''orders'' = Inr 0
   \<and> fst (store_invoke (fst (snd (store_delete failing_store ''orders'' example_world))) ''orders''
            (snd (snd (store_delete failing_store ''orders'' example_world)))) = Some AttributeError"
  by (simp add: store_delete_def store_invoke_def getitem_def Let_def stop_eq failing_u_stop_def
      Connector_invoke_def split: prod.splits)

subsection \<open>C9: stop twice, stop before start\<close>

text \<open>
  C9, as amended. \<^verbatim>\<open>stop\<close> raises exactly what the \<^verbatim>\<open>_stop\<close> hook raises, called after both
  flags are cleared. For every class whose \<^verbatim>\<open>_stop\<close> keeps the supervisor's attributes,
  \<^verbatim>\<open>keep_connecting\<close> and \<^verbatim>\<open>keep_running\<close> are false after \<^verbatim>\<open>stop\<close>, whether or not it raised:
  after a first \<^verbatim>\<open>stop\<close>, after a second one right behind it, and after a \<^verbatim>\<open>stop\<close> on a
  connector that was never started (as the constructor leaves it). With the \<^verbatim>\<open>_stop\<close> of
  \<^verbatim>\<open>Connector\<close>, \<^verbatim>\<open>stop\<close> does not raise in any of these cases, and the second \<^verbatim>\<open>stop\<close> leaves
  the connector as the first one left it.
\<close>

theorem stop_twice:
  assumes "keeps_supervisor_state (u_stop K)"
  shows "fst (stop K c tr) = fst (u_stop K (c\<lparr>keep_connecting := False, keep_running := False\<rparr>))
    \<and> \<not> keep_connecting (fst (snd (stop K c tr)))
    \<and> \<not> keep_running (fst (snd (stop K c tr)))
    \<and> \<not> keep_connecting (fst (snd (stop K (fst (snd (stop K c tr))) (snd (snd (stop K c tr))))))
    \<and> \<not> keep_running (fst (snd (stop K (fst (snd (stop K c tr))) (snd (snd (stop K c tr))))))
    \<and> \<not> keep_connecting (fst (snd (stop K (Connector_init K nm ty cfg cb af) tr)))
    \<and> \<not> keep_running (fst (snd (stop K (Connector_init K nm ty cfg cb af) tr)))
    \<and> (\<exists>c1 tr1 tr2. stop (K\<lparr>u_stop := Connector_u_stop\<rparr>) c tr = (None, c1, tr1)
          \<and> \<not> keep_connecting c1 \<and> \<not> keep_running c1
          \<and> stop (K\<lparr>u_stop := Connector_u_stop\<rparr>) c1 tr1 = (None, c1, tr2))
    \<and> fst (stop (K\<lparr>u_stop := Connector_u_stop\<rparr>) (Connector_init K nm ty cfg cb af) tr) = None"
proof -
  have "\<exists>c1 tr1 tr2. stop (K\<lparr>u_stop := Connector_u_stop\<rparr>) c tr = (None, c1, tr1)
          \<and> \<not> keep_connecting c1 \<and> \<not> keep_running c1
          \<and> stop (K\<lparr>u_stop := Connector_u_stop\<rparr>) c1 tr1 = (None, c1, tr2)"
    by (simp add: stop_eq Connector_u_stop_def)
  moreover have "fst (stop (K\<lparr>u_stop := Connector_u_stop\<rparr>) (Connector_init K nm ty cfg cb af) tr) = None"
    by (simp add: stop_eq Connector_u_stop_def)
  moreover have "fst (stop K c tr) = fst (u_stop K (c\<lparr>keep_connecting := False, keep_running := False\<rparr>))"
    by (simp add: stop_eq)
  ultimately show ?thesis
    using stop_flags(1,2) [OF assms] by simp
qed

theorem stop_twice_witness:
  "fst (stop (Stub_failing_stop []) new_failing_stub []) = Some (OtherException ''cannot close'')
    \<and> \<not> keep_connecting (fst (snd (stop (Stub_failing_stop []) new_failing_stub [])))
    \<and> \<not> keep_running (fst (snd (stop (Stub_failing_stop []) new_failing_stub [])))
    \<and> (\<exists>c1 tr1 tr2. stop (Stub []) (new_stub [] True) [] = (None, c1, tr1)
          \<and> \<not> keep_connecting c1 \<and> \<not> keep_running c1
          \<and> stop (Stub []) c1 tr1 = (None, c1, tr2))"
  using stop_twice [of "Stub_failing_stop []" new_failing_stub "[]" "''orders''" "''ZeroMQ outgoing''"
      "example_config True" None None]
    stop_twice [of "Stub []" "new_stub [] True" "[]" "''orders''" "''ZeroMQ outgoing''"
      "example_config True" None None]
  by (auto simp add: failing_u_stop_def Stub_def Connector_def)

text \<open>
  C9 as stated fails: with a \<^verbatim>\<open>_stop\<close> that raises, \<^verbatim>\<open>stop\<close> on a connector that was never
  started raises, and so does a second \<^verbatim>\<open>stop\<close> right after it.
\<close>

theorem stop_twice_counterexample:
  "fst (stop (Stub_failing_stop []) new_failing_stub []) = Some (OtherException ''cannot close'')
   \<and> fst (stop (Stub_failing_stop [])
            (fst (snd (stop (Stub_failing_stop []) new_failing_stub [])))
            (snd (snd (stop (Stub_failing_stop []) new_failing_stub []))))
       = Some (OtherException ''cannot close'')"
  by (simp add: stop_eq failing_u_stop_def)

subsection \<open>C10: ConnectorStore.create overwrites\<close>

text \<open>
  C10. \<^verbatim>\<open>create\<close> does not raise. It builds a new connector of the store's class and type and
  registers it under the name; the new object is distinct from every existing one. An entry
  already registered under that name is replaced by the new object; the object it referred to
  is left as it is.
\<close>

theorem store_create_overwrites:
  "\<exists>S' W'. store_create S nm cfg cb af W = (None, S', W')
     \<and> getitem S' nm = Inr (length (objs W))
     \<and> objs W' = objs W @ [Connector_init (connector_class S) nm (stype S) cfg cb af]
     \<and> objs W' ! length (objs W) = Connector_init (connector_class S) nm (stype S) cfg cb af
     \<and> connectors S' = (connectors S)(nm \<mapsto> length (objs W))
     \<and> (connectors S nm = Some old \<and> old < length (objs W) \<longrightarrow>
          getitem S' nm \<noteq> Inr old \<and> objs W' ! old = objs W ! old)"
  by (auto simp add: store_create_def Let_def getitem_def nth_append)

theorem store_create_overwrites_witness:
  "\<exists>S' W'. store_create example_store ''orders'' (example_config False) None None example_world = (None, S', W')
     \<and> getitem S' ''orders'' = Inr 1
     \<and> getitem example_store ''orders'' = Inr 0
     \<and> objs W' ! 1 = new_stub [] False
     \<and> objs W' ! 0 = new_stub [] True"
  using store_create_overwrites [of example_store "''orders''" "example_config False" None None example_world 0]
  by (auto simp add: new_stub_def getitem_def)

end
